theory Spec2Isabelle
  imports Complex_Main "HOL-Library.Word" "HOL-Library.Sublist"
begin

section \<open>JavaScript strings and numbers\<close>

text \<open>
  A JavaScript string is a sequence of UTF-16 code units; \<open>length\<close>, \<open>substring\<close> and
  \<open>trim\<close> of \<^verbatim>\<open>src/js/main.js\<close> count and inspect code units. The literals of the source are
  ASCII and are written with \<open>js\<close>. Numbers that the modelled code computes with are
  integers (indices, page numbers, lengths) and are modelled as \<open>int\<close>.
\<close>

type_synonym code_unit = "16 word"
type_synonym jsstring = "code_unit list"

definition js :: "string \<Rightarrow> jsstring" where
  "js s = map (\<lambda>c. of_nat (of_char c)) s"

text \<open>\<^verbatim>\<open>String.prototype.substring(start, end)\<close>: both arguments are clamped to the
  string and swapped when they come in the wrong order.\<close>

definition substring :: "jsstring \<Rightarrow> int \<Rightarrow> int \<Rightarrow> jsstring" where
  "substring s start finish =
     (let len = int (length s);
          a = min (max start 0) len;
          b = min (max finish 0) len;
          lo = min a b;
          hi = max a b
      in take (nat (hi - lo)) (drop (nat lo) s))"

text \<open>The code units that \<^verbatim>\<open>String.prototype.trim\<close> removes: ECMAScript's WhiteSpace and
  LineTerminator.\<close>

definition isWhiteSpace :: "code_unit \<Rightarrow> bool" where
  "isWhiteSpace c \<longleftrightarrow>
     c = 0x09 \<or> c = 0x0A \<or> c = 0x0B \<or> c = 0x0C \<or> c = 0x0D \<or> c = 0x20 \<or> c = 0xA0 \<or>
     c = 0x1680 \<or> (0x2000 \<le> c \<and> c \<le> 0x200A) \<or> c = 0x2028 \<or> c = 0x2029 \<or>
     c = 0x202F \<or> c = 0x205F \<or> c = 0x3000 \<or> c = 0xFEFF"

definition trimEnd :: "jsstring \<Rightarrow> jsstring" where
  "trimEnd s = rev (dropWhile isWhiteSpace (rev s))"

definition trim :: "jsstring \<Rightarrow> jsstring" where
  "trim s = trimEnd (dropWhile isWhiteSpace s)"

text \<open>\<^verbatim>\<open>Array.prototype.slice(start, end)\<close>: a negative argument counts from the end.\<close>

definition arraySlice :: "'a list \<Rightarrow> int \<Rightarrow> int \<Rightarrow> 'a list" where
  "arraySlice xs start finish =
     (let len = int (length xs);
          k = (if start < 0 then max (len + start) 0 else min start len);
          final = (if finish < 0 then max (len + finish) 0 else min finish len)
      in take (nat (final - k)) (drop (nat k) xs))"

text \<open>The decimal digits of an integer, as a template literal \<^verbatim>\<open>${n}\<close> prints it.\<close>

function natToString :: "nat \<Rightarrow> jsstring" where
  "natToString n =
     (if n < 10 then [0x30 + of_nat n]
      else natToString (n div 10) @ [0x30 + of_nat (n mod 10)])"
  by pat_completeness auto
termination
  by (relation "measure id") auto

declare natToString.simps [simp del]

definition toString :: "int \<Rightarrow> jsstring" where
  "toString i = (if i < 0 then 0x2D # natToString (nat (- i)) else natToString (nat i))"

section \<open>Configuration, posts and the page\<close>

text \<open>\<^verbatim>\<open>CONFIG\<close> (lines 9-21). The two paths depend on whether the page lives under
  \<^verbatim>\<open>/posts/\<close>.\<close>

record config =
  indexPath :: jsstring
  dataPath :: jsstring
  postsPerPage :: int
  excerptLength :: int

definition CONFIG :: "bool \<Rightarrow> config" where
  "CONFIG isPostPage =
     \<lparr> indexPath = (if isPostPage then js ''../data/posts-index.json'' else js ''data/posts-index.json''),
       dataPath = (if isPostPage then js ''../data/posts.json'' else js ''data/posts.json''),
       postsPerPage = 8,
       excerptLength = 150 \<rparr>"

text \<open>
  A post of the JSON dataset. The string fields are taken as present (an empty string
  is JavaScript's falsy string); \<open>image\<close> and \<open>content\<close> may be absent, and so may each of
  the three lists of a content.
\<close>

record content =
  paragraphs :: "jsstring list option"
  ingredients :: "jsstring list option"
  steps :: "jsstring list option"

record post =
  slug :: jsstring
  title :: jsstring
  category :: jsstring
  date :: jsstring
  excerpt :: jsstring
  image :: "jsstring option"
  content :: "content option"

text \<open>\<^verbatim>\<open>v || d\<close> for an optional string \<open>v\<close>: absent and empty are both falsy.\<close>

definition orElse :: "jsstring option \<Rightarrow> jsstring \<Rightarrow> jsstring" where
  "orElse v d = (case v of None \<Rightarrow> d | Some s \<Rightarrow> if s = [] then d else s)"

datatype error = TypeError

text \<open>The outcome of \<^verbatim>\<open>fetch(path)\<close> followed by \<^verbatim>\<open>response.json()\<close>. \<open>FetchFail\<close> is a
  rejected fetch. \<open>JsonFail\<close> is any exception raised while the payload is read inside
  the loader's \<^verbatim>\<open>try\<close> block. A payload is a JSON object; its \<^verbatim>\<open>posts\<close> key is \<open>None\<close>
  when absent (or falsy), so that \<^verbatim>\<open>data.posts || []\<close> is the empty list.\<close>

datatype json_result = JsonFail jsstring | Payload "post list option"

datatype fetch_result = FetchFail jsstring | Response bool int json_result

text \<open>
  What the code takes from the browser: the location, the formatting of a date in the
  user's locale and time zone, Unicode lower-casing, the network, the message of a
  caught exception, and the parts of a post page that the static generator may have
  left (\<^verbatim>\<open>.post-body\<close>, \<^verbatim>\<open>window.preloadedPost\<close>, the \<^verbatim>\<open>slug\<close> query parameter).
\<close>

record env =
  isPostPage :: bool
  dayMonth :: "jsstring \<Rightarrow> jsstring"
  toLowerCase :: "jsstring \<Rightarrow> jsstring"
  fetch :: "jsstring \<Rightarrow> fetch_result"
  errorMessage :: "error \<Rightarrow> jsstring"
  hasPostBody :: bool
  preloadedPost :: "post option"
  slugParam :: "jsstring option"

text \<open>One control of the pagination bar: each constructor is one \<^verbatim>\<open>html += ...\<close> of
  \<^verbatim>\<open>renderPaginationControls\<close>. \<open>PageNum i active\<close> is the button of page \<open>i\<close>.\<close>

datatype ctrl = Prev int | PageNum int bool | Dots | Next int

text \<open>
  The module's variables (\<open>postsData\<close>, \<open>currentPost\<close>, \<open>currentPage\<close>) and the elements of
  the document that the modelled functions write. An element that the page may lack is
  an option; its value is the sequence of HTML chunks written into it (an assignment to
  \<^verbatim>\<open>innerHTML\<close> replaces the sequence, \<^verbatim>\<open>appendChild\<close> extends it). \<open>relatedPosts\<close> holds
  whether the related-posts section has been switched to \<^verbatim>\<open>display: block\<close>.
\<close>

record state =
  postsData :: "post list"
  currentPost :: "post option"
  currentPage :: int
  postsGrid :: "jsstring list option"
  postContent :: "jsstring list option"
  pagination :: "ctrl list option"
  postsSection :: bool
  relatedPosts :: "bool option"
  relatedPostsGrid :: "jsstring list option"

section \<open>Utility functions\<close>

text \<open>\<^verbatim>\<open>formatDate\<close> (lines 692-700): the empty string for a falsy date, else day and short
  month as the browser prints them.\<close>

definition formatDate :: "env \<Rightarrow> jsstring \<Rightarrow> jsstring" where
  "formatDate e dateString = (if dateString = [] then [] else dayMonth e dateString)"

text \<open>\<^verbatim>\<open>truncateText\<close> (lines 702-705).\<close>

definition truncateText :: "jsstring \<Rightarrow> int \<Rightarrow> jsstring" where
  "truncateText text maxLength =
     (if text = [] \<or> int (length text) \<le> maxLength then text
      else trim (substring text 0 maxLength) @ js ''...'')"

text \<open>\<^verbatim>\<open>escapeHtml\<close> (lines 707-712): the text becomes the only text node of a fresh
  \<^verbatim>\<open>div\<close>, whose \<^verbatim>\<open>innerHTML\<close> is read back. Serialising a text node replaces \<^verbatim>\<open>&\<close>,
  the no-break space, \<^verbatim>\<open><\<close> and \<^verbatim>\<open>>\<close>; quotes are left as they are.\<close>

definition escapeChar :: "code_unit \<Rightarrow> jsstring" where
  "escapeChar c =
     (if c = 0x26 then js ''&amp;''
      else if c = 0xA0 then js ''&nbsp;''
      else if c = 0x3C then js ''&lt;''
      else if c = 0x3E then js ''&gt;''
      else [c])"

definition escapeHtml :: "jsstring \<Rightarrow> jsstring" where
  "escapeHtml text = (if text = [] then [] else concat (map escapeChar text))"

text \<open>\<^verbatim>\<open>getLinkPath\<close> (lines 421-437).\<close>

definition getLinkPath :: "env \<Rightarrow> jsstring \<Rightarrow> jsstring \<Rightarrow> jsstring" where
  "getLinkPath e type slugOrCat =
     (if type = js ''home'' then (if isPostPage e then js ''../index.html'' else js ''index.html'')
      else if type = js ''post'' then
        (if isPostPage e then slugOrCat @ js ''.html'' else js ''posts/'' @ slugOrCat @ js ''.html'')
      else if type = js ''category'' then
        (let base = (if isPostPage e then js ''../index.html'' else js ''index.html'')
         in base @ js ''#'' @ toLowerCase e slugOrCat)
      else js ''#'')"

text \<open>\<^verbatim>\<open>showError\<close> (lines 714-729) writes the message into both containers that exist.\<close>

definition errorBox :: "jsstring \<Rightarrow> jsstring" where
  \<open>errorBox message =
     js (''\<newline>'' @
         ''                <div class="loading" style="color: #ef4444;">\<newline>'' @
         ''                    '') @
     escapeHtml message @
     js (''\<newline>'' @
         ''                </div>\<newline>'' @
         ''            '')\<close>

definition showError :: "jsstring \<Rightarrow> state \<Rightarrow> state" where
  "showError message s =
     s\<lparr> postsGrid := map_option (\<lambda>_. [errorBox message]) (postsGrid s),
        postContent := map_option (\<lambda>_. [errorBox message]) (postContent s) \<rparr>"

section \<open>Data loading\<close>

text \<open>The error block that \<^verbatim>\<open>loadPostsData\<close> writes into the grid (lines 128-135).\<close>

definition loadErrorBlock :: "jsstring \<Rightarrow> config \<Rightarrow> jsstring" where
  \<open>loadErrorBlock message cfg =
     js (''\<newline>'' @
         ''                <div style="grid-column: 1/-1; text-align: center; padding: 40px;">\<newline>'' @
         ''                    <h3>Unable to load posts</h3>\<newline>'' @
         ''                    <p>Error: '') @
     message @
     js (''</p>\<newline>'' @
         ''                    <p>Path: '') @
     dataPath cfg @
     js (''</p>\<newline>'' @
         ''                    <p>Please check browser console for details.</p>\<newline>'' @
         ''                </div>\<newline>'' @
         ''            '')\<close>

text \<open>The \<^verbatim>\<open>catch\<close> block of \<^verbatim>\<open>loadPostsData\<close> (lines 121-138): the grid, when the page
  has one, shows the error block; the result is the empty list.\<close>

definition loadFailed :: "env \<Rightarrow> jsstring \<Rightarrow> state \<Rightarrow> post list \<times> state" where
  "loadFailed e message s =
     ([], s\<lparr> postsGrid :=
              map_option (\<lambda>_. [loadErrorBlock message (CONFIG (isPostPage e))]) (postsGrid s) \<rparr>)"

text \<open>\<^verbatim>\<open>loadPostsData\<close> (lines 105-139). The result is the returned list together with the
  state after the call.\<close>

definition loadPostsData :: "env \<Rightarrow> state \<Rightarrow> post list \<times> state" where
  "loadPostsData e s =
     (case fetch e (dataPath (CONFIG (isPostPage e))) of
        FetchFail message \<Rightarrow> loadFailed e message s
      | Response ok status body \<Rightarrow>
          if \<not> ok then loadFailed e (js ''HTTP error! status: '' @ toString status) s
          else (case body of
                  JsonFail message \<Rightarrow> loadFailed e message s
                | Payload posts \<Rightarrow>
                    (let data = (case posts of None \<Rightarrow> [] | Some ps \<Rightarrow> ps)
                     in (data, s\<lparr> postsData := data \<rparr>))))"

text \<open>\<^verbatim>\<open>loadPostsIndex\<close> (lines 82-102).\<close>

definition loadPostsIndex :: "env \<Rightarrow> state \<Rightarrow> post list \<times> state" where
  "loadPostsIndex e s =
     (case fetch e (indexPath (CONFIG (isPostPage e))) of
        FetchFail message \<Rightarrow> loadPostsData e s
      | Response ok status body \<Rightarrow>
          if \<not> ok then loadPostsData e s
          else (case body of
                  JsonFail message \<Rightarrow> loadPostsData e s
                | Payload posts \<Rightarrow>
                    (let data = (case posts of None \<Rightarrow> [] | Some ps \<Rightarrow> ps)
                     in (data, s\<lparr> postsData := data \<rparr>))))"

section \<open>Hero carousel\<close>

text \<open>
  The markup of one slide and of one dot (lines 182-204 and 226).
  \<^verbatim>\<open>renderHeroCarousel\<close> draws \<open>carouselPosts\<close> with \<^verbatim>\<open>Math.random\<close>; the drawn sequence is the
  argument of \<open>carouselHtml\<close>.
\<close>

definition carouselSlide :: "post \<Rightarrow> int \<Rightarrow> jsstring" where
  \<open>carouselSlide post index =
     js (''\<newline>'' @
         ''        <div class="carousel-slide '') @
     (if index = 0 then js ''active'' else []) @
     js ''" data-index="'' @
     toString index @
     js ''" data-slug="'' @
     slug post @
     js (''">\<newline>'' @
         ''            <div class="carousel-image-wrapper">\<newline>'' @
         ''                <img src="'') @
     orElse (image post) (js ''https://via.placeholder.com/1200x600?text=No+Image'') @
     js (''" \<newline>'' @
         ''                     alt="'') @
     escapeHtml (title post) @
     js (''" \<newline>'' @
         ''                     class="carousel-image"\<newline>'' @
         ''                     onerror="this.src='https://via.placeholder.com/1200x600?text=No+Image'">\<newline>'' @
         ''                <div class="carousel-overlay"></div>\<newline>'' @
         ''            </div>\<newline>'' @
         ''            <div class="carousel-content">\<newline>'' @
         ''                <h2 class="carousel-title">'') @
     escapeHtml (title post) @
     js (''</h2>\<newline>'' @
         ''\<newline>'' @
         ''                <p class="carousel-excerpt">'') @
     substring (escapeHtml (excerpt post)) 0 150 @
     js (''...</p>\<newline>'' @
         ''                <a href="posts/'') @
     slug post @
     js (''.html" class="carousel-btn-read" onclick="event.stopPropagation()">\<newline>'' @
         ''                    Read Article\<newline>'' @
         ''                    <svg width="20" height="20" viewBox="0 0 24 24" fill="none" stroke="currentColor" stroke-width="2">\<newline>'' @
         ''                        <line x1="5" y1="12" x2="19" y2="12"></line>\<newline>'' @
         ''                        <polyline points="12 5 19 12 12 19"></polyline>\<newline>'' @
         ''                    </svg>\<newline>'' @
         ''                </a>\<newline>'' @
         ''            </div>\<newline>'' @
         ''        </div>\<newline>'' @
         ''    '')\<close>

definition carouselHtml :: "post list \<Rightarrow> jsstring" where
  "carouselHtml carouselPosts =
     concat (map (\<lambda>(post, index). carouselSlide post index)
                 (zip carouselPosts (map int [0 ..< length carouselPosts])))"

definition carouselDot :: "int \<Rightarrow> jsstring" where
  \<open>carouselDot index =
     js ''<button class="carousel-dot '' @
     (if index = 0 then js ''active'' else []) @
     js ''" data-index="'' @
     toString index @
     js ''" aria-label="Go to slide '' @
     toString (index + 1) @
     js ''"></button>''\<close>

text \<open>
  The carousel as \<^verbatim>\<open>goToSlide\<close> sees it: the elements of class \<^verbatim>\<open>carousel-slide\<close> and
  \<^verbatim>\<open>carousel-dot\<close> in document order, each with whether it carries the class
  \<^verbatim>\<open>active\<close>, and the variable \<open>currentSlide\<close>.
\<close>

record carousel =
  slides :: "bool list"
  dots :: "bool list"
  currentSlide :: int

text \<open>\<^verbatim>\<open>goToSlide\<close> (lines 269-288). \<^verbatim>\<open>slides[index].classList\<close> throws when
  \<^verbatim>\<open>slides[index]\<close> is undefined; a missing dot is skipped.\<close>

definition goToSlide :: "int \<Rightarrow> carousel \<Rightarrow> error + carousel" where
  "goToSlide index c =
     (if length (slides c) = 0 then Inr c
      else
        let n = int (length (slides c));
            index1 = (if index < 0 then n - 1 else index);
            index2 = (if index1 \<ge> n then 0 else index1);
            slides1 = map (\<lambda>_. False) (slides c);
            dots1 = map (\<lambda>_. False) (dots c)
        in if 0 \<le> index2 \<and> index2 < n then
             Inr \<lparr> slides = slides1[nat index2 := True],
                   dots = (if nat index2 < length dots1 then dots1[nat index2 := True] else dots1),
                   currentSlide = index2 \<rparr>
           else Inl TypeError)"

section \<open>Posts grid and pagination\<close>

text \<open>\<^verbatim>\<open>createPostCard\<close> (lines 389-418): the \<^verbatim>\<open>innerHTML\<close> of the card.\<close>

definition createPostCard :: "env \<Rightarrow> post \<Rightarrow> jsstring" where
  \<open>createPostCard e post =
     (let imageHtml =
            (case image post of
               None \<Rightarrow> []
             | Some img \<Rightarrow>
                 if img = [] then []
                 else js (''<div class="post-card-image">\<newline>'' @
                          ''               <img src="'') @
                      escapeHtml img @
                      js ''" alt="'' @
                      escapeHtml (title post) @
                      js (''" loading="lazy">\<newline>'' @
                          ''           </div>''));
          excerpt = truncateText (excerpt post) (excerptLength (CONFIG (isPostPage e)));
          postUrl = getLinkPath e (js ''post'') (slug post)
      in
     js (''\<newline>'' @
         ''        '') @
     imageHtml @
     js (''\<newline>'' @
         ''        <div class="post-card-content">\<newline>'' @
         ''            <div class="post-meta">\<newline>'' @
         ''                <span class="post-category">'') @
     escapeHtml (category post) @
     js (''</span>\<newline>'' @
         ''                <span class="post-date">'') @
     formatDate e (date post) @
     js (''</span>\<newline>'' @
         ''            </div>\<newline>'' @
         ''            <h2 class="post-card-title">\<newline>'' @
         ''                <a href="'') @
     postUrl @
     js ''">'' @
     escapeHtml (title post) @
     js (''</a>\<newline>'' @
         ''            </h2>\<newline>'' @
         ''            <p class="post-card-excerpt">'') @
     escapeHtml excerpt @
     js (''</p>\<newline>'' @
         ''            <a href="'') @
     postUrl @
     js (''" class="read-more">Read More</a>\<newline>'' @
         ''        </div>\<newline>'' @
         ''    ''))\<close>

text \<open>\<^verbatim>\<open>renderPostsGrid\<close> (lines 304-314): the grid is emptied and receives one card per
  post, in order.\<close>

definition renderPostsGrid :: "env \<Rightarrow> post list \<Rightarrow> state \<Rightarrow> state" where
  "renderPostsGrid e posts s =
     (case postsGrid s of
        None \<Rightarrow> s
      | Some _ \<Rightarrow> s\<lparr> postsGrid := Some (foldl (\<lambda>grid post. grid @ [createPostCard e post]) [] posts) \<rparr>)"

text \<open>The markup of each control (lines 363, 369, 371 and 377).\<close>

fun ctrlHtml :: "ctrl \<Rightarrow> jsstring" where
  \<open>ctrlHtml (Prev p) =
     js ''<button class="page-btn prev" onclick="changePage('' @ toString p @ js '')">Previous</button>''\<close>
| \<open>ctrlHtml (PageNum i active) =
     js ''<button class="page-num '' @ (if active then js ''active'' else []) @
     js ''" onclick="changePage('' @ toString i @ js '')">'' @ toString i @ js ''</button>''\<close>
| \<open>ctrlHtml Dots = js ''<span class="page-dots">...</span>''\<close>
| \<open>ctrlHtml (Next p) =
     js ''<button class="page-btn next" onclick="changePage('' @ toString p @ js '')">Next</button>''\<close>

definition totalPagesOf :: "env \<Rightarrow> state \<Rightarrow> int" where
  "totalPagesOf e s =
     \<lceil>real (length (postsData s)) / real_of_int (postsPerPage (CONFIG (isPostPage e)))\<rceil>"

text \<open>The loop over the page numbers (lines 367-373), from \<open>i\<close> on, appending to \<open>html\<close>.\<close>

function pageNumbers :: "int \<Rightarrow> int \<Rightarrow> int \<Rightarrow> ctrl list \<Rightarrow> ctrl list" where
  "pageNumbers i totalPages cur html =
     (if i \<le> totalPages then
        pageNumbers (i + 1) totalPages cur
          (if i = 1 \<or> i = totalPages \<or> (i \<ge> cur - 1 \<and> i \<le> cur + 1) then html @ [PageNum i (i = cur)]
           else if i = cur - 2 \<or> i = cur + 2 then html @ [Dots]
           else html)
      else html)"
  by pat_completeness auto
termination
  by (relation "measure (\<lambda>(i, totalPages, cur, html). nat (totalPages + 1 - i))") auto

declare pageNumbers.simps [simp del]

text \<open>\<^verbatim>\<open>renderPaginationControls\<close> (lines 342-381). A page without the container gets one
  appended to \<^verbatim>\<open>.posts-section\<close>; without that section the call throws.\<close>

definition paginationControls :: "int \<Rightarrow> int \<Rightarrow> ctrl list" where
  "paginationControls totalPages cur =
     (let html0 = [];
          html1 = (if cur > 1 then html0 @ [Prev (cur - 1)] else html0);
          html2 = pageNumbers 1 totalPages cur html1;
          html3 = (if cur < totalPages then html2 @ [Next (cur + 1)] else html2)
      in html3)"

definition renderPaginationControls :: "env \<Rightarrow> state \<Rightarrow> error + state" where
  "renderPaginationControls e s =
     (let totalPages = totalPagesOf e s in
      if pagination s = None \<and> \<not> postsSection s then Inl TypeError
      else if totalPages \<le> 1 then Inr (s\<lparr> pagination := Some [] \<rparr>)
      else Inr (s\<lparr> pagination := Some (paginationControls totalPages (currentPage s)) \<rparr>))"

text \<open>\<^verbatim>\<open>renderPagedPosts\<close> (lines 316-340). The sidebar of page 1 and the scrolling
  touch nothing that \<open>state\<close> holds.\<close>

definition renderPagedPosts :: "env \<Rightarrow> int \<Rightarrow> state \<Rightarrow> error + state" where
  "renderPagedPosts e page s =
     (if length (postsData s) = 0 then Inr s
      else
        let s1 = s\<lparr> currentPage := page \<rparr>;
            startIndex = (page - 1) * postsPerPage (CONFIG (isPostPage e));
            endIndex = startIndex + postsPerPage (CONFIG (isPostPage e));
            pagedPosts = arraySlice (postsData s1) startIndex endIndex;
            s2 = renderPostsGrid e pagedPosts s1
        in renderPaginationControls e s2)"

section \<open>Single post page\<close>

text \<open>The three parts that \<^verbatim>\<open>renderSinglePost\<close> (lines 490-570) concatenates:
  \<open>headerHtml\<close>, \<open>imageHtml\<close> and \<open>contentHtml\<close>.\<close>

definition headerHtml :: "env \<Rightarrow> post \<Rightarrow> jsstring" where
  \<open>headerHtml e post =
     js (''\<newline>'' @
         ''        <header class="post-header">\<newline>'' @
         ''            <h1 class="post-title">'') @
     escapeHtml (title post) @
     js (''</h1>\<newline>'' @
         ''            <div class="post-meta">\<newline>'' @
         ''                <span class="post-category">'') @
     escapeHtml (category post) @
     js (''</span>\<newline>'' @
         ''                <span class="post-date">'') @
     formatDate e (date post) @
     js (''</span>\<newline>'' @
         ''            </div>\<newline>'' @
         ''        </header>\<newline>'' @
         ''    '')\<close>

definition imageHtml :: "post \<Rightarrow> jsstring" where
  \<open>imageHtml post =
     (case image post of
        None \<Rightarrow> []
      | Some img \<Rightarrow>
          if img = [] then []
          else js (''<div class="post-featured-image">\<newline>'' @
                   ''               <img src="'') @
               escapeHtml img @
               js ''" alt="'' @
               escapeHtml (title post) @
               js (''">\<newline>'' @
                   ''           </div>''))\<close>

definition midAd :: jsstring where
  \<open>midAd =
     js (''\<newline>'' @
         ''                    <div class="ad-mid-content">\<newline>'' @
         ''                        <div class="ad-placeholder">\<newline>'' @
         ''                            <p class="ad-label">Advertisement</p>\<newline>'' @
         ''                        </div>\<newline>'' @
         ''                    </div>\<newline>'' @
         ''                '')\<close>

definition endAd :: jsstring where
  \<open>endAd =
     js (''\<newline>'' @
         ''        <div class="ad-end-content">\<newline>'' @
         ''            <div class="ad-placeholder">\<newline>'' @
         ''                <p class="ad-label">Advertisement</p>\<newline>'' @
         ''            </div>\<newline>'' @
         ''        </div>\<newline>'' @
         ''    '')\<close>

text \<open>The \<^verbatim>\<open>forEach\<close> over the paragraphs (lines 519-532), from the paragraph of the
  given index on, appending to \<open>contentHtml\<close>.\<close>

fun paragraphsLoop :: "jsstring list \<Rightarrow> int \<Rightarrow> jsstring \<Rightarrow> jsstring" where
  "paragraphsLoop [] index contentHtml = contentHtml"
| "paragraphsLoop (para # rest) index contentHtml =
     paragraphsLoop rest (index + 1)
       (let contentHtml1 = contentHtml @ js ''<p>'' @ escapeHtml para @ js ''</p>''
        in if index = 2 then contentHtml1 @ midAd else contentHtml1)"

definition listItems :: "jsstring list \<Rightarrow> jsstring \<Rightarrow> jsstring" where
  "listItems items contentHtml =
     foldl (\<lambda>html item. html @ js ''<li>'' @ escapeHtml item @ js ''</li>'') contentHtml items"

definition contentHtml :: "content \<Rightarrow> jsstring" where
  \<open>contentHtml c =
     (let html0 = js ''<div class="post-body">'';
          html1 = (case paragraphs c of
                     None \<Rightarrow> html0
                   | Some ps \<Rightarrow> if length ps > 0 then paragraphsLoop ps 0 html0 else html0);
          html2 = (case ingredients c of
                     None \<Rightarrow> html1
                   | Some ings \<Rightarrow>
                       if length ings > 0 then
                         listItems ings (html1 @ js ''<h2>Ingredients</h2>'' @ js ''<ul class="ingredients-list">'')
                           @ js ''</ul>''
                       else html1);
          html3 = (case steps c of
                     None \<Rightarrow> html2
                   | Some ss \<Rightarrow>
                       if length ss > 0 then
                         listItems ss (html2 @ js ''<h2>Instructions</h2>'' @ js ''<ol class="steps-list">'')
                           @ js ''</ol>''
                       else html2);
          html4 = html3 @ endAd
      in html4 @ js ''</div>'')\<close>

text \<open>\<^verbatim>\<open>renderSinglePost\<close>: nothing happens on a page without the container; reading
  \<^verbatim>\<open>post.content.paragraphs\<close> of a post without content throws.\<close>

definition renderSinglePost :: "env \<Rightarrow> post \<Rightarrow> state \<Rightarrow> error + state" where
  "renderSinglePost e post s =
     (case postContent s of
        None \<Rightarrow> Inr s
      | Some _ \<Rightarrow>
          (case content post of
             None \<Rightarrow> Inl TypeError
           | Some c \<Rightarrow>
               Inr (s\<lparr> postContent := Some [headerHtml e post @ imageHtml post @ contentHtml c] \<rparr>)))"

section \<open>Related posts\<close>

text \<open>The selection of \<^verbatim>\<open>renderRelatedPosts\<close> (lines 582-592).\<close>

definition selectRelated :: "post \<Rightarrow> post list \<Rightarrow> post list" where
  "selectRelated cur allPosts =
     (let related = filter (\<lambda>p. category p = category cur \<and> slug p \<noteq> slug cur) allPosts
      in if length related < 3 then
           (let others = filter (\<lambda>p. slug p \<noteq> slug cur) allPosts
            in arraySlice (related @ others) 0 3)
         else arraySlice related 0 3)"

definition relatedCard :: "env \<Rightarrow> post \<Rightarrow> jsstring" where
  \<open>relatedCard e post =
     js (''\<newline>'' @
         ''        <div class="related-post-card" onclick="window.location.href='' @ [CHR 0x27]) @
     slug post @
     js (''.html'">\<newline>'' @
         ''            <div class="related-post-image">\<newline>'' @
         ''                <img src="'') @
     escapeHtml (orElse (image post) (js ''https://via.placeholder.com/400x200'')) @
     js (''" \<newline>'' @
         ''                     alt="'') @
     escapeHtml (title post) @
     js (''" \<newline>'' @
         ''                     loading="lazy">\<newline>'' @
         ''            </div>\<newline>'' @
         ''            <div class="related-post-content">\<newline>'' @
         ''                <span class="related-post-category">'') @
     escapeHtml (category post) @
     js (''</span>\<newline>'' @
         ''                <h4 class="related-post-title">'') @
     escapeHtml (title post) @
     js (''</h4>\<newline>'' @
         ''                <span class="related-post-date">'') @
     formatDate e (date post) @
     js (''</span>\<newline>'' @
         ''            </div>\<newline>'' @
         ''        </div>\<newline>'' @
         ''    '')\<close>

text \<open>\<^verbatim>\<open>renderRelatedPosts\<close> (lines 575-614).\<close>

definition renderRelatedPosts :: "env \<Rightarrow> post \<Rightarrow> post list \<Rightarrow> state \<Rightarrow> state" where
  "renderRelatedPosts e cur allPosts s =
     (if relatedPosts s = None \<or> relatedPostsGrid s = None then s
      else
        let related = selectRelated cur allPosts
        in if length related = 0 then s
           else s\<lparr> relatedPosts := Some True,
                    relatedPostsGrid := Some [concat (map (relatedCard e) related)] \<rparr>)"

section \<open>Sidebar\<close>

text \<open>
  The list items of \<^verbatim>\<open>renderCategories\<close> (lines 624-639) and of \<^verbatim>\<open>renderRecentPosts\<close>
  (line 654). Which five posts are the recent ones depends on how the browser parses
  the dates; only the markup of an item is modelled.
\<close>

definition uniqueInOrder :: "'a list \<Rightarrow> 'a list" where
  "uniqueInOrder xs = foldl (\<lambda>seen x. if x \<in> set seen then seen else seen @ [x]) [] xs"

definition categoryItem :: "env \<Rightarrow> post list \<Rightarrow> jsstring \<Rightarrow> jsstring" where
  \<open>categoryItem e posts cat =
     (let count = int (length (filter (\<lambda>p. category p = cat) posts));
          catUrl = getLinkPath e (js ''category'') cat
      in js ''<a href="'' @ catUrl @ js ''">'' @ escapeHtml cat @ js '' ('' @ toString count @ js '')</a>'')\<close>

definition renderCategories :: "env \<Rightarrow> post list \<Rightarrow> jsstring list" where
  "renderCategories e posts = map (categoryItem e posts) (uniqueInOrder (map category posts))"


section \<open>Loading a single post\<close>

text \<open>\<^verbatim>\<open>loadSinglePost\<close> (lines 442-488). The sidebar and the meta tags that it also
  fills are no part of \<open>state\<close>.\<close>

definition loadSinglePost :: "env \<Rightarrow> state \<Rightarrow> state" where
  "loadSinglePost e s =
     (if hasPostBody e \<or> preloadedPost e \<noteq> None then
        (let (posts, s1) = loadPostsIndex e s
         in case preloadedPost e of
              None \<Rightarrow> s1
            | Some pre \<Rightarrow> renderRelatedPosts e pre posts s1)
      else
        (case slugParam e of
           None \<Rightarrow> showError (js ''Post not found (No slug provided)'') s
         | Some sl \<Rightarrow>
             if sl = [] then showError (js ''Post not found (No slug provided)'') s
             else
               (let (posts, s1) = loadPostsData e s
                in case find (\<lambda>p. slug p = sl) posts of
                     None \<Rightarrow> showError (js ''Post not found (Slug mismatch)'') s1
                   | Some post \<Rightarrow>
                       (let s2 = s1\<lparr> currentPost := Some post \<rparr>
                        in case renderSinglePost e post s2 of
                             Inr s3 \<Rightarrow> s3
                           | Inl err \<Rightarrow>
                               showError (js ''Error rendering post: '' @ errorMessage e err) s2))))"

section \<open>Closed forms and example data\<close>

text \<open>The two \<^verbatim>\<open>if\<close>s of \<^verbatim>\<open>goToSlide\<close> (lines 276-277) as one function of the number of
  slides and the index.\<close>

definition wrapIndex :: "int \<Rightarrow> int \<Rightarrow> int" where
  "wrapIndex n i = (if i < 0 then n - 1 else if i \<ge> n then 0 else i)"

text \<open>A carousel of five slides and five dots, as first rendered.\<close>

definition fiveSlides :: carousel where
  "fiveSlides = \<lparr> slides = [True, False, False, False, False],
                  dots = [True, False, False, False, False], currentSlide = 0 \<rparr>"

text \<open>A text of \<open>n\<close> letters \<^verbatim>\<open>a\<close>.\<close>

definition aText :: "nat \<Rightarrow> jsstring" where
  "aText n = replicate n 0x61"

text \<open>The pages that get a button, in the words of the specification: page 1, the last
  page, and the pages within one of the current page.\<close>

definition shown :: "int \<Rightarrow> int \<Rightarrow> int \<Rightarrow> bool" where
  "shown totalPages cur i \<longleftrightarrow> i = 1 \<or> i = totalPages \<or> \<bar>i - cur\<bar> \<le> 1"

definition shownPages :: "int \<Rightarrow> int \<Rightarrow> int list" where
  "shownPages totalPages cur = filter (shown totalPages cur) [1 .. totalPages]"

text \<open>The buttons of the given pages in order, with one ellipsis between two consecutive
  buttons whose pages are not adjacent.\<close>

fun withGaps :: "int \<Rightarrow> int list \<Rightarrow> ctrl list" where
  "withGaps cur [] = []"
| "withGaps cur [p] = [PageNum p (p = cur)]"
| "withGaps cur (p # q # ps) =
     PageNum p (p = cur) # (if q = p + 1 then [] else [Dots]) @ withGaps cur (q # ps)"

text \<open>Used in the proofs: the ellipsis that the loop still owes when it reaches page \<open>i\<close>,
  and what the loop adds at page \<open>i\<close>.\<close>

definition pendingDots :: "int \<Rightarrow> int \<Rightarrow> int \<Rightarrow> ctrl list" where
  "pendingDots totalPages cur i =
     (if (2 \<le> i \<and> i \<le> cur - 2) \<or> (i = cur + 2 \<and> i \<le> totalPages - 1) then [Dots] else [])"

definition pageItem :: "int \<Rightarrow> int \<Rightarrow> int \<Rightarrow> ctrl list" where
  "pageItem totalPages cur i =
     (if shown totalPages cur i then [PageNum i (i = cur)]
      else if i = cur - 2 \<or> i = cur + 2 then [Dots] else [])"

text \<open>Example data: a post, an environment, and an index page with \<open>n\<close> posts that shows
  the given page.\<close>

definition samplePost :: post where
  "samplePost = \<lparr> slug = js ''soup'', title = js ''Soup'', category = js ''Recipes'',
       date = [], excerpt = js ''Warm.'', image = None, content = None \<rparr>"

definition exampleEnv :: env where
  "exampleEnv = \<lparr> isPostPage = False, dayMonth = (\<lambda>d. js ''13-Jan''), toLowerCase = (\<lambda>s. s),
       fetch = (\<lambda>path. FetchFail (js ''Failed to fetch'')),
       errorMessage = (\<lambda>err. js ''Cannot read properties of undefined''),
       hasPostBody = False, preloadedPost = None, slugParam = None \<rparr>"

definition gridState :: "nat \<Rightarrow> int \<Rightarrow> state" where
  "gridState n page = \<lparr> postsData = replicate n samplePost, currentPost = None, currentPage = page,
       postsGrid = Some [], postContent = None, pagination = Some [], postsSection = True,
       relatedPosts = None, relatedPostsGrid = None \<rparr>"

text \<open>The cards in the grid after \<^verbatim>\<open>renderPagedPosts(page)\<close>.\<close>

definition pageCards :: "env \<Rightarrow> int \<Rightarrow> state \<Rightarrow> jsstring list" where
  "pageCards e page s =
     (case renderPagedPosts e page s of
        Inr s' \<Rightarrow> (case postsGrid s' of Some cards \<Rightarrow> cards | None \<Rightarrow> [])
      | Inl err \<Rightarrow> [])"

text \<open>Example data: five posts, three of them in the category of the first.\<close>

definition mkPost :: "string \<Rightarrow> string \<Rightarrow> post" where
  "mkPost s c = \<lparr> slug = js s, title = js s, category = js c,
       date = [], excerpt = [], image = None, content = None \<rparr>"

definition fivePosts :: "post list" where
  "fivePosts = [mkPost ''pie'' ''Recipes'', mkPost ''soup'' ''Recipes'', mkPost ''stew'' ''Recipes'',
                mkPost ''paris'' ''Travel'', mkPost ''rome'' ''Travel'']"

text \<open>The outcomes on which a loader gives up, in the words of the specification: a
  rejected fetch, a status that is not a success, or a payload that cannot be read;
  and the \<^verbatim>\<open>posts\<close> of a payload, empty when the key is absent.\<close>

definition isFailure :: "fetch_result \<Rightarrow> bool" where
  "isFailure r =
     (case r of
        FetchFail message \<Rightarrow> True
      | Response ok status body \<Rightarrow>
          \<not> ok \<or> (case body of JsonFail message \<Rightarrow> True | Payload posts \<Rightarrow> False))"

definition payloadPosts :: "fetch_result \<Rightarrow> post list" where
  "payloadPosts r =
     (case r of
        Response ok status (Payload (Some posts)) \<Rightarrow> posts
      | _ \<Rightarrow> [])"

text \<open>An environment without the index file (status 404) and with a dataset of one post.\<close>

definition okEnv :: env where
  "okEnv = exampleEnv \<lparr> fetch := (\<lambda>path.
       if path = js ''data/posts-index.json'' then Response False 404 (JsonFail [])
       else Response True 200 (Payload (Some [samplePost]))) \<rparr>"

text \<open>The parts of the body of a post, in the words of the specification: the markup of a
  paragraph and of a list item; the paragraphs with the advertisement after the third;
  the two labelled lists, left out when there is no item.\<close>

definition para :: "jsstring \<Rightarrow> jsstring" where
  "para p = js ''<p>'' @ escapeHtml p @ js ''</p>''"

definition listItem :: "jsstring \<Rightarrow> jsstring" where
  "listItem item = js ''<li>'' @ escapeHtml item @ js ''</li>''"





text \<open>Example data: a post page, and a post with four paragraphs, one ingredient and two
  steps.\<close>

definition postState :: state where
  "postState = \<lparr> postsData = [], currentPost = None, currentPage = 1,
       postsGrid = None, postContent = Some [], pagination = None, postsSection = False,
       relatedPosts = None, relatedPostsGrid = None \<rparr>"



text \<open>The number of \<^verbatim>\<open><\<close> and \<^verbatim>\<open>>\<close> in a piece of HTML, and a post with every text that the
  page shows as text replaced by the empty string (the lists of the content keep their
  lengths).\<close>

definition markup :: "jsstring \<Rightarrow> nat" where
  "markup s = length (filter (\<lambda>c. c = 0x3C \<or> c = 0x3E) s)"




definition singleEnv :: env where
  "singleEnv = exampleEnv \<lparr> slugParam := Some (js ''soup''),
       fetch := (\<lambda>path. Response True 200 (Payload (Some [samplePost]))) \<rparr>"

section \<open>Carousel navigation\<close>

lemma activate_eq:
  "k < length xs \<Longrightarrow> (map (\<lambda>_. False) xs)[k := True] = map (\<lambda>j. j = k) [0 ..< length xs]"
  by (rule nth_equalityI) (auto simp: nth_list_update)

lemma none_active_eq:
  "\<not> k < length xs \<Longrightarrow> map (\<lambda>_. False) xs = map (\<lambda>j. j = k) [0 ..< length xs]"
  by (rule nth_equalityI) auto

lemma goToSlide_Inr:
  assumes "length (slides c) > 0"
  shows "goToSlide i c =
           Inr \<lparr> slides = map (\<lambda>j. j = nat (wrapIndex (int (length (slides c))) i)) [0 ..< length (slides c)],
                 dots = map (\<lambda>j. j = nat (wrapIndex (int (length (slides c))) i)) [0 ..< length (dots c)],
                 currentSlide = wrapIndex (int (length (slides c))) i \<rparr>"
  using assms
  by (auto simp: goToSlide_def Let_def wrapIndex_def activate_eq none_active_eq)

lemma wrapIndex_mod:
  assumes "0 < n" "- 1 \<le> i" "i \<le> n"
  shows "wrapIndex n i = i mod n"
proof -
  consider "i = - 1" | "0 \<le> i \<and> i < n" | "i = n" using assms by linarith
  then show ?thesis
  proof cases
    case 1
    then show ?thesis using assms by (simp add: wrapIndex_def zmod_minus1)
  next
    case 2
    then show ?thesis by (simp add: wrapIndex_def)
  next
    case 3
    then show ?thesis using assms by (simp add: wrapIndex_def)
  qed
qed

lemma wrapIndex_range: "0 < n \<Longrightarrow> 0 \<le> wrapIndex n i \<and> wrapIndex n i < n"
  by (simp add: wrapIndex_def)

text \<open>
  C3, as the code has it. On a carousel with at least one slide, \<open>goToSlide i\<close> returns
  normally for every integer \<open>i\<close>; the new \<open>currentSlide\<close> is the last slide for a
  negative \<open>i\<close>, the first slide for an \<open>i\<close> at or beyond the number of slides, and \<open>i\<close>
  itself otherwise; it lies in \<open>[0, slideCount)\<close>; exactly the slide (and the dot, if
  there is one) with that index is active afterwards. The result is \<open>i mod slideCount\<close>
  for the indices one step outside the range (\<open>-1 \<le> i \<le> slideCount\<close>), which covers what
  the previous, next and timer handlers pass. On five slides, \<open>goToSlide (-1)\<close> gives 4
  and \<open>goToSlide 5\<close> gives 0.
\<close>

theorem goToSlide_wraps:
  assumes "length (slides c) > 0"
  shows "\<exists>c'. goToSlide i c = Inr c' \<and>
           currentSlide c' = (if i < 0 then int (length (slides c)) - 1
                              else if i \<ge> int (length (slides c)) then 0 else i) \<and>
           0 \<le> currentSlide c' \<and> currentSlide c' < int (length (slides c)) \<and>
           slides c' = map (\<lambda>j. int j = currentSlide c') [0 ..< length (slides c)] \<and>
           dots c' = map (\<lambda>j. int j = currentSlide c') [0 ..< length (dots c)] \<and>
           (- 1 \<le> i \<and> i \<le> int (length (slides c)) \<longrightarrow>
              currentSlide c' = i mod int (length (slides c))) \<and>
           (length (slides c) = 5 \<longrightarrow>
              map_sum id currentSlide (goToSlide (- 1) c) = Inr 4 \<and>
              map_sum id currentSlide (goToSlide 5 c) = Inr 0)"
proof -
  let ?n = "int (length (slides c))"
  have n: "0 < ?n" using assms by simp
  have r: "0 \<le> wrapIndex ?n i \<and> wrapIndex ?n i < ?n" by (rule wrapIndex_range [OF n])
  have eq: "\<And>j. (j = nat (wrapIndex ?n i)) = (int j = wrapIndex ?n i)"
    using r by (auto simp: nat_eq_iff)
  have m: "- 1 \<le> i \<and> i \<le> ?n \<longrightarrow> wrapIndex ?n i = i mod ?n"
    using wrapIndex_mod [OF n] by blast
  have ex: "length (slides c) = 5 \<longrightarrow>
              map_sum id currentSlide (goToSlide (- 1) c) = Inr 4 \<and>
              map_sum id currentSlide (goToSlide 5 c) = Inr 0"
    by (simp add: goToSlide_Inr [OF assms] wrapIndex_def)
  show ?thesis
    apply (subst goToSlide_Inr [OF assms])
    apply (rule exI, rule conjI, rule refl)
    using r m ex by (simp add: eq) (simp add: wrapIndex_def)
qed

theorem goToSlide_wraps_witness:
  "0 < length (slides fiveSlides) \<and>
   goToSlide (- 1) fiveSlides =
     Inr \<lparr> slides = [False, False, False, False, True],
           dots = [False, False, False, False, True], currentSlide = 4 \<rparr> \<and>
   goToSlide 5 fiveSlides = Inr fiveSlides"
  using goToSlide_wraps [of fiveSlides "- 1"] goToSlide_wraps [of fiveSlides 5]
  by (auto simp: fiveSlides_def upt_rec)

text \<open>The wrap is not the remainder: on five slides, \<open>goToSlide 7\<close> activates slide 0,
  and \<open>7 mod 5\<close> is 2.\<close>

theorem goToSlide_not_modular:
  "goToSlide 7 fiveSlides =
     Inr \<lparr> slides = [True, False, False, False, False],
           dots = [True, False, False, False, False], currentSlide = 0 \<rparr> \<and>
   7 mod int (length (slides fiveSlides)) = 2"
  by (simp add: goToSlide_def fiveSlides_def)

text \<open>
  C10. For every integer \<open>i\<close>: with \<open>n > 0\<close> slides, \<open>goToSlide i\<close> returns and leaves
  \<open>currentSlide\<close> in \<open>[0, n)\<close> (and the number of slides as it was); with no slide it
  returns the carousel unchanged.
\<close>

theorem goToSlide_currentSlide_in_range:
  "(length (slides c) > 0 \<longrightarrow>
      (\<exists>c'. goToSlide i c = Inr c' \<and> 0 \<le> currentSlide c' \<and>
            currentSlide c' < int (length (slides c)) \<and>
            length (slides c') = length (slides c))) \<and>
   (length (slides c) = 0 \<longrightarrow> goToSlide i c = Inr c)"
  using wrapIndex_range [of "int (length (slides c))" i]
  by (auto simp: goToSlide_Inr) (simp add: goToSlide_def)

theorem goToSlide_currentSlide_in_range_witness:
  "(\<exists>c'. goToSlide 12 fiveSlides = Inr c' \<and> 0 \<le> currentSlide c' \<and> currentSlide c' < 5) \<and>
   goToSlide 12 \<lparr> slides = [], dots = [], currentSlide = 3 \<rparr>
     = Inr \<lparr> slides = [], dots = [], currentSlide = 3 \<rparr>"
  using goToSlide_currentSlide_in_range [of fiveSlides 12]
    goToSlide_currentSlide_in_range [of "\<lparr> slides = [], dots = [], currentSlide = 3 \<rparr>" 12]
  by (auto simp: fiveSlides_def)

section \<open>Excerpt truncation\<close>

lemma substring_prefix:
  "0 \<le> m \<Longrightarrow> m \<le> int (length s) \<Longrightarrow> substring s 0 m = take (nat m) s"
  by (simp add: substring_def Let_def min_def max_def)

lemma length_trimEnd: "length (trimEnd s) \<le> length s"
  unfolding trimEnd_def using length_dropWhile_le [of isWhiteSpace "rev s"] by simp

lemma length_trim: "length (trim s) \<le> length s"
  unfolding trim_def
  using length_trimEnd [of "dropWhile isWhiteSpace s"] length_dropWhile_le [of isWhiteSpace s]
  by linarith

lemma trim_no_leading: "s \<noteq> [] \<Longrightarrow> \<not> isWhiteSpace (hd s) \<Longrightarrow> trim s = trimEnd s"
  by (cases s) (simp_all add: trim_def)

lemma length_js: "length (js s) = length s"
  by (simp add: js_def)

lemma dropWhile_replicate:
  "dropWhile P (replicate n x) = (if P x then [] else replicate n x)"
  by (induction n) auto

lemma isWhiteSpace_examples: "\<not> isWhiteSpace 0x61" "isWhiteSpace 0x20"
  by (simp_all add: isWhiteSpace_def)

text \<open>
  C8, as the code has it. An excerpt longer than the configured maximum (150) becomes
  its first 150 code units with the white space at both ends removed
  (\<^verbatim>\<open>substring(0, 150).trim()\<close>), followed by \<^verbatim>\<open>...\<close>: at most 153 code units. When the
  excerpt does not begin with white space, that is the first 150 code units trimmed of
  trailing white space. An excerpt of at most 150 code units is returned unchanged.
\<close>

theorem truncateText_excerpt:
  "(int (length str) > excerptLength (CONFIG b) \<longrightarrow>
      truncateText str (excerptLength (CONFIG b)) = trim (take 150 str) @ js ''...'' \<and>
      length (truncateText str (excerptLength (CONFIG b))) \<le> 153 \<and>
      (\<not> isWhiteSpace (hd str) \<longrightarrow>
         truncateText str (excerptLength (CONFIG b)) = trimEnd (take 150 str) @ js ''...'')) \<and>
   (int (length str) \<le> excerptLength (CONFIG b) \<longrightarrow>
      truncateText str (excerptLength (CONFIG b)) = str)"
proof -
  have e: "excerptLength (CONFIG b) = 150" by (simp add: CONFIG_def)
  show ?thesis
  proof (cases "int (length str) > 150")
    case True
    then have ne: "str \<noteq> []" by auto
    have t: "truncateText str 150 = trim (take 150 str) @ js ''...''"
      using True ne substring_prefix [of 150 str] by (simp add: truncateText_def)
    have l: "length (trim (take 150 str)) \<le> 150"
      using length_trim [of "take 150 str"] by simp
    have h: "\<not> isWhiteSpace (hd str) \<longrightarrow> trim (take 150 str) = trimEnd (take 150 str)"
      using ne trim_no_leading [of "take 150 str"] by (cases str) auto
    show ?thesis using True t l h by (simp add: e length_js)
  next
    case False
    then show ?thesis by (simp add: e truncateText_def)
  qed
qed

theorem truncateText_excerpt_witness:
  "int (length (aText 200)) > excerptLength (CONFIG False) \<and>
   truncateText (aText 200) (excerptLength (CONFIG False)) = aText 150 @ js ''...'' \<and>
   truncateText (aText 3) (excerptLength (CONFIG False)) = aText 3"
  using truncateText_excerpt [where str = "aText 200" and b = False]
    truncateText_excerpt [where str = "aText 3" and b = False]
  by (simp add: CONFIG_def aText_def trim_def trimEnd_def dropWhile_replicate isWhiteSpace_examples)

text \<open>An excerpt that begins with a space: the space goes too, so the result is not the
  first 150 code units trimmed at the end only.\<close>

theorem truncateText_trims_both_ends:
  "truncateText (0x20 # aText 200) 150 = aText 149 @ js ''...'' \<and>
   trimEnd (take 150 (0x20 # aText 200)) @ js ''...'' = 0x20 # aText 149 @ js ''...''"
  by (simp add: truncateText_def substring_def trim_def trimEnd_def aText_def take_Cons'
      dropWhile_replicate isWhiteSpace_examples)

section \<open>Pagination\<close>

lemma pageNumbers_concat:
  "pageNumbers i t c html = html @ concat (map (pageItem t c) [i .. t])"
proof (induction i t c html rule: pageNumbers.induct)
  case (1 i t c html)
  show ?case
  proof (cases "i \<le> t")
    case True
    have u: "[i .. t] = i # [i + 1 .. t]" using True by (simp add: upto_rec1)
    have s: "shown t c i \<longleftrightarrow> (i = 1 \<or> i = t \<or> (i \<ge> c - 1 \<and> i \<le> c + 1))"
      by (auto simp: shown_def)
    show ?thesis
      apply (subst pageNumbers.simps)
      apply (simp only: True if_True)
      apply (subst "1.IH" [OF True])
      apply (simp add: u pageItem_def s)
      done
  next
    case False
    then show ?thesis by (subst pageNumbers.simps) simp
  qed
qed

lemma shownPages_Cons:
  "i \<le> t \<Longrightarrow> filter (shown t c) [i .. t] =
     (if shown t c i then i # filter (shown t c) [i + 1 .. t] else filter (shown t c) [i + 1 .. t])"
  by (simp add: upto_rec1 [of i t])

lemma filter_shown_nonempty:
  "i \<le> t \<Longrightarrow> filter (shown t c) [i .. t] \<noteq> []"
proof -
  assume "i \<le> t"
  then have "t \<in> set [i .. t]" by simp
  moreover have "shown t c t" by (simp add: shown_def)
  ultimately show ?thesis by (auto simp: filter_empty_conv)
qed

lemma hd_filter_shown:
  "i \<le> t \<Longrightarrow> hd (filter (shown t c) [i .. t]) = i \<longleftrightarrow> shown t c i"
proof
  assume le: "i \<le> t" and h: "hd (filter (shown t c) [i .. t]) = i"
  have "hd (filter (shown t c) [i .. t]) \<in> set (filter (shown t c) [i .. t])"
    using filter_shown_nonempty [OF le] by (rule hd_in_set)
  then show "shown t c i" using h by simp
next
  assume "i \<le> t" "shown t c i"
  then show "hd (filter (shown t c) [i .. t]) = i" by (simp add: shownPages_Cons)
qed

lemma withGaps_Cons:
  "ps \<noteq> [] \<Longrightarrow> withGaps c (p # ps) =
     PageNum p (p = c) # (if hd ps = p + 1 then [] else [Dots]) @ withGaps c ps"
  by (cases ps) simp_all

lemma suffix_closed:
  assumes "2 \<le> i" "i \<le> t + 1" "1 \<le> c" "c \<le> t"
  shows "concat (map (pageItem t c) [i .. t]) =
           pendingDots t c i @ withGaps c (filter (shown t c) [i .. t])"
  using assms
proof (induction "nat (t + 1 - i)" arbitrary: i)
  case 0
  then have "i = t + 1" by simp
  then show ?case using 0 by (simp add: pendingDots_def)
next
  case (Suc n)
  then have le: "i \<le> t" by simp
  have u: "[i .. t] = i # [i + 1 .. t]" using le by (simp add: upto_rec1)
  have IH: "concat (map (pageItem t c) [i + 1 .. t]) =
              pendingDots t c (i + 1) @ withGaps c (filter (shown t c) [i + 1 .. t])"
    using Suc by (intro Suc.hyps(1)) auto
  show ?case
  proof (cases "shown t c i")
    case True
    then have mid: "i = t \<or> (c - 1 \<le> i \<and> i \<le> c + 1)"
      using Suc.prems by (auto simp: shown_def)
    have pd: "pendingDots t c i = []"
      using mid Suc.prems by (auto simp: pendingDots_def)
    show ?thesis
    proof (cases "i = t")
      case True
      then show ?thesis
        using \<open>shown t c i\<close> pd by (simp add: pageItem_def)
          
    next
      case False
      then have lt: "i + 1 \<le> t" using le by simp
      have ne: "filter (shown t c) [i + 1 .. t] \<noteq> []" by (rule filter_shown_nonempty [OF lt])
      have hdq: "hd (filter (shown t c) [i + 1 .. t]) = i + 1 \<longleftrightarrow> shown t c (i + 1)"
        by (rule hd_filter_shown [OF lt])
      have key: "pendingDots t c (i + 1) = (if shown t c (i + 1) then [] else [Dots])"
        using mid False Suc.prems lt by (auto simp: pendingDots_def shown_def)
      show ?thesis
        using True by (simp add: u IH pd pageItem_def withGaps_Cons [OF ne] hdq key)
    qed
  next
    case False
    then have f: "filter (shown t c) [i .. t] = filter (shown t c) [i + 1 .. t]"
      by (simp add: u)
    have key: "pageItem t c i @ pendingDots t c (i + 1) = pendingDots t c i"
      using False Suc.prems le by (auto simp: pageItem_def pendingDots_def shown_def)
    have "concat (map (pageItem t c) [i .. t]) =
            (pageItem t c i @ pendingDots t c (i + 1)) @ withGaps c (filter (shown t c) [i + 1 .. t])"
      by (simp add: u IH)
    then show ?thesis by (simp only: key f)
  qed
qed

lemma pageNumbers_closed:
  assumes "2 \<le> t" "1 \<le> c" "c \<le> t"
  shows "pageNumbers 1 t c html = html @ withGaps c (shownPages t c)"
proof -
  have t1: "(1::int) \<le> t" and t2: "(2::int) \<le> t" using assms by simp_all
  have u: "[1 .. t] = 1 # [2 .. t]" using upto_rec1 [OF t1] by simp
  have s1: "shown t c 1" by (simp add: shown_def)
  have ne: "filter (shown t c) [2 .. t] \<noteq> []" by (rule filter_shown_nonempty [OF t2])
  have hdq: "hd (filter (shown t c) [2 .. t]) = 1 + 1 \<longleftrightarrow> shown t c 2"
    using hd_filter_shown [OF t2, of c] by simp
  have key: "pendingDots t c 2 = (if shown t c 2 then [] else [Dots])"
    using assms by (auto simp: pendingDots_def shown_def)
  have sc: "concat (map (pageItem t c) [2 .. t]) =
              pendingDots t c 2 @ withGaps c (filter (shown t c) [2 .. t])"
    using assms by (intro suffix_closed) auto
  have p1: "pageItem t c 1 = [PageNum 1 (1 = c)]" using s1 by (simp add: pageItem_def)
  have "concat (map (pageItem t c) [1 .. t]) =
          [PageNum 1 (1 = c)] @ pendingDots t c 2 @ withGaps c (filter (shown t c) [2 .. t])"
    by (simp only: u list.map concat.simps p1 sc)
  also have "\<dots> = withGaps c (1 # filter (shown t c) [2 .. t])"
    by (simp only: withGaps_Cons [OF ne] hdq key) simp
  also have "1 # filter (shown t c) [2 .. t] = shownPages t c"
    using s1 by (simp only: shownPages_def u filter.simps if_True)
  finally show ?thesis by (simp only: pageNumbers_concat)
qed

lemma totalPagesOf_div: "totalPagesOf e s = (int (length (postsData s)) + 7) div 8"
proof -
  have "\<lceil>real n / 8\<rceil> = (int n + 7) div 8" for n :: nat by linarith
  then show ?thesis by (simp add: totalPagesOf_def CONFIG_def)
qed

lemma paginationControls_closed:
  assumes "2 \<le> t" "1 \<le> c" "c \<le> t"
  shows "paginationControls t c =
           (if c \<noteq> 1 then [Prev (c - 1)] else []) @ withGaps c (shownPages t c) @
           (if c \<noteq> t then [Next (c + 1)] else [])"
  using assms by (auto simp: paginationControls_def Let_def pageNumbers_closed [OF assms])

lemma withGaps_3_2:
  "withGaps 2 (shownPages 3 2) = [PageNum 1 False, PageNum 2 True, PageNum 3 False]"
  by (simp add: shownPages_def shown_def upto_rec1)

lemma withGaps_10_1:
  "withGaps 1 (shownPages 10 1) = [PageNum 1 True, PageNum 2 False, Dots, PageNum 10 False]"
  by (simp add: shownPages_def shown_def upto_rec1)

lemma renderPaginationControls_closed:
  assumes "pagination s \<noteq> None \<or> postsSection s"
    and "2 \<le> totalPagesOf e s" and "1 \<le> currentPage s" and "currentPage s \<le> totalPagesOf e s"
  shows "renderPaginationControls e s =
           Inr (s\<lparr> pagination := Some (
             (if currentPage s \<noteq> 1 then [Prev (currentPage s - 1)] else []) @
             withGaps (currentPage s) (shownPages (totalPagesOf e s) (currentPage s)) @
             (if currentPage s \<noteq> totalPagesOf e s then [Next (currentPage s + 1)] else [])) \<rparr>) \<and>
         (length (postsData s) = 20 \<and> currentPage s = 2 \<longrightarrow>
            renderPaginationControls e s =
              Inr (s\<lparr> pagination :=
                Some [Prev 1, PageNum 1 False, PageNum 2 True, PageNum 3 False, Next 3] \<rparr>)) \<and>
         (totalPagesOf e s = 10 \<and> currentPage s = 1 \<longrightarrow>
            renderPaginationControls e s =
              Inr (s\<lparr> pagination :=
                Some [PageNum 1 True, PageNum 2 False, Dots, PageNum 10 False, Next 2] \<rparr>))"
proof -
  let ?t = "totalPagesOf e s" and ?c = "currentPage s"
  have g: "renderPaginationControls e s = Inr (s\<lparr> pagination := Some (paginationControls ?t ?c) \<rparr>)"
    using assms(1,2) by (auto simp: renderPaginationControls_def Let_def)
  have c: "paginationControls ?t ?c =
           (if ?c \<noteq> 1 then [Prev (?c - 1)] else []) @ withGaps ?c (shownPages ?t ?c) @
           (if ?c \<noteq> ?t then [Next (?c + 1)] else [])"
    by (rule paginationControls_closed [OF assms(2,3,4)])
  have main: "renderPaginationControls e s =
           Inr (s\<lparr> pagination := Some (
             (if ?c \<noteq> 1 then [Prev (?c - 1)] else []) @ withGaps ?c (shownPages ?t ?c) @
             (if ?c \<noteq> ?t then [Next (?c + 1)] else [])) \<rparr>)"
    by (simp only: g c)
  have ex1: "renderPaginationControls e s =
              Inr (s\<lparr> pagination :=
                Some [Prev 1, PageNum 1 False, PageNum 2 True, PageNum 3 False, Next 3] \<rparr>)"
    if "length (postsData s) = 20" "currentPage s = 2"
  proof -
    have "?t = 3" using that by (simp add: totalPagesOf_div)
    then show ?thesis using that by (simp add: main withGaps_3_2)
  qed
  have ex2: "renderPaginationControls e s =
              Inr (s\<lparr> pagination :=
                Some [PageNum 1 True, PageNum 2 False, Dots, PageNum 10 False, Next 2] \<rparr>)"
    if "totalPagesOf e s = 10" "currentPage s = 1"
    using that by (simp add: main withGaps_10_1)
  show ?thesis using main ex1 ex2 by blast
qed

text \<open>
  C2, as the code has it. With at least two pages and the current page among them,
  the bar is: Previous iff the current page is not 1; then the buttons of page 1, of
  the last page and of every page within one of the current page, in order, with one
  ellipsis in each gap between two buttons; then Next iff the current page is not the
  last. For 20 posts (3 pages) at page 2 the buttons are 1, 2, 3 with no ellipsis. At
  page 1 of 10 pages the buttons are 1, 2, an ellipsis, and 10: page 3 is two away
  from the current page and gets no button. With at most one page the bar is empty.
\<close>

theorem renderPaginationControls_shown:
  assumes "pagination s \<noteq> None \<or> postsSection s"
  shows "(2 \<le> totalPagesOf e s \<and> 1 \<le> currentPage s \<and> currentPage s \<le> totalPagesOf e s \<longrightarrow>
            renderPaginationControls e s =
              Inr (s\<lparr> pagination := Some (
                (if currentPage s \<noteq> 1 then [Prev (currentPage s - 1)] else []) @
                withGaps (currentPage s) (shownPages (totalPagesOf e s) (currentPage s)) @
                (if currentPage s \<noteq> totalPagesOf e s then [Next (currentPage s + 1)] else [])) \<rparr>)) \<and>
         (length (postsData s) = 20 \<and> currentPage s = 2 \<longrightarrow>
            renderPaginationControls e s =
              Inr (s\<lparr> pagination :=
                Some [Prev 1, PageNum 1 False, PageNum 2 True, PageNum 3 False, Next 3] \<rparr>)) \<and>
         (totalPagesOf e s = 10 \<and> currentPage s = 1 \<longrightarrow>
            renderPaginationControls e s =
              Inr (s\<lparr> pagination :=
                Some [PageNum 1 True, PageNum 2 False, Dots, PageNum 10 False, Next 2] \<rparr>)) \<and>
         (totalPagesOf e s \<le> 1 \<longrightarrow>
            renderPaginationControls e s = Inr (s\<lparr> pagination := Some [] \<rparr>))"
proof -
  have one: "totalPagesOf e s \<le> 1 \<longrightarrow>
            renderPaginationControls e s = Inr (s\<lparr> pagination := Some [] \<rparr>)"
    using assms by (auto simp: renderPaginationControls_def Let_def)
  have main: "2 \<le> totalPagesOf e s \<and> 1 \<le> currentPage s \<and> currentPage s \<le> totalPagesOf e s \<longrightarrow>
            renderPaginationControls e s =
              Inr (s\<lparr> pagination := Some (
                (if currentPage s \<noteq> 1 then [Prev (currentPage s - 1)] else []) @
                withGaps (currentPage s) (shownPages (totalPagesOf e s) (currentPage s)) @
                (if currentPage s \<noteq> totalPagesOf e s then [Next (currentPage s + 1)] else [])) \<rparr>)"
    using renderPaginationControls_closed [OF assms] by blast
  have ex1: "length (postsData s) = 20 \<and> currentPage s = 2 \<longrightarrow>
            renderPaginationControls e s =
              Inr (s\<lparr> pagination :=
                Some [Prev 1, PageNum 1 False, PageNum 2 True, PageNum 3 False, Next 3] \<rparr>)"
  proof
    assume a: "length (postsData s) = 20 \<and> currentPage s = 2"
    then have "totalPagesOf e s = 3" by (simp add: totalPagesOf_div)
    then show "renderPaginationControls e s =
              Inr (s\<lparr> pagination :=
                Some [Prev 1, PageNum 1 False, PageNum 2 True, PageNum 3 False, Next 3] \<rparr>)"
      using a renderPaginationControls_closed [OF assms, of e] by (simp add: withGaps_3_2)
  qed
  have ex2: "totalPagesOf e s = 10 \<and> currentPage s = 1 \<longrightarrow>
            renderPaginationControls e s =
              Inr (s\<lparr> pagination :=
                Some [PageNum 1 True, PageNum 2 False, Dots, PageNum 10 False, Next 2] \<rparr>)"
    using renderPaginationControls_closed [OF assms, of e] by (simp add: withGaps_10_1)
  show ?thesis using main ex1 ex2 one by blast
qed

lemma gridState_sel:
  "postsData (gridState n p) = replicate n samplePost" "currentPage (gridState n p) = p"
  "pagination (gridState n p) = Some []" "postsSection (gridState n p)"
  "postsGrid (gridState n p) = Some []"
  by (simp_all add: gridState_def)

theorem renderPaginationControls_shown_witness:
  "map_sum id pagination (renderPaginationControls exampleEnv (gridState 20 2)) =
     Inr (Some [Prev 1, PageNum 1 False, PageNum 2 True, PageNum 3 False, Next 3])"
proof -
  have t: "totalPagesOf exampleEnv (gridState 20 2) = 3"
    by (simp add: totalPagesOf_div gridState_sel)
  show ?thesis
    using renderPaginationControls_shown [of "gridState 20 2" exampleEnv]
    by (simp add: t gridState_sel withGaps_3_2)
qed

text \<open>
  With 80 posts there are 10 pages; at page 1 the bar has the buttons 1 and 2, one
  ellipsis and the button 10, and no button for page 3.
\<close>

theorem renderPaginationControls_page1_of_10:
  "totalPagesOf exampleEnv (gridState 80 1) = 10 \<and>
   map_sum id pagination (renderPaginationControls exampleEnv (gridState 80 1)) =
     Inr (Some [PageNum 1 True, PageNum 2 False, Dots, PageNum 10 False, Next 2])"
proof -
  have t: "totalPagesOf exampleEnv (gridState 80 1) = 10"
    by (simp add: totalPagesOf_div gridState_sel)
  have p: "paginationControls 10 1 = [PageNum 1 True, PageNum 2 False, Dots, PageNum 10 False, Next 2]"
    by (simp add: paginationControls_def pageNumbers.simps)
  show ?thesis
    by (simp add: t p renderPaginationControls_def gridState_sel)
qed

lemma foldl_snoc_map: "foldl (\<lambda>acc x. acc @ [f x]) acc xs = acc @ map f xs"
  by (induction xs arbitrary: acc) simp_all

lemma arraySlice_nat: "arraySlice xs (int a) (int a + int b) = take b (drop a xs)"
proof (cases "a \<le> length xs")
  case True
  show ?thesis
  proof (cases "a + b \<le> length xs")
    case True
    then have "nat (min (int a + int b) (int (length xs)) - min (int a) (int (length xs))) = b"
      by (simp add: min_def)
    moreover have "nat (min (int a) (int (length xs))) = a" using True by (simp add: min_def)
    ultimately show ?thesis by (simp add: arraySlice_def Let_def)
  next
    case False
    then have "nat (min (int a + int b) (int (length xs)) - min (int a) (int (length xs)))
                 = length xs - a"
      using True by (simp add: min_def nat_diff_distrib)
    moreover have "nat (min (int a) (int (length xs))) = a" using True by (simp add: min_def)
    ultimately show ?thesis using False by (simp add: arraySlice_def Let_def)
  qed
next
  case False
  then have "nat (min (int a) (int (length xs))) = length xs" by (simp add: min_def)
  then show ?thesis using False by (simp add: arraySlice_def Let_def)
qed

lemma pageSlice:
  assumes "1 \<le> p"
  shows "arraySlice xs (p * 8 - 8) (p * 8) = take 8 (drop (nat (p * 8 - 8)) xs)"
  using arraySlice_nat [of xs "nat (p * 8 - 8)" 8] assms by simp

lemma renderPaginationControls_frame:
  assumes "pagination s \<noteq> None \<or> postsSection s"
  shows "\<exists>ctrls. renderPaginationControls e s = Inr (s\<lparr> pagination := Some ctrls \<rparr>)"
  using assms by (auto simp: renderPaginationControls_def Let_def)

lemma renderPagedPosts_grid:
  assumes "postsGrid s \<noteq> None" "pagination s \<noteq> None \<or> postsSection s" "postsData s \<noteq> []" "1 \<le> p"
  shows "\<exists>ctrls. renderPagedPosts e p s =
           Inr (s\<lparr> currentPage := p,
                   postsGrid := Some (map (createPostCard e)
                      (take 8 (drop (nat ((p - 1) * 8)) (postsData s)))),
                   pagination := Some ctrls \<rparr>)"
proof -
  let ?s2 = "s\<lparr> currentPage := p,
                 postsGrid := Some (map (createPostCard e)
                    (take 8 (drop (nat ((p - 1) * 8)) (postsData s)))) \<rparr>"
  have c: "pagination ?s2 \<noteq> None \<or> postsSection ?s2" using assms(2) by simp
  obtain ctrls where r: "renderPaginationControls e ?s2 = Inr (?s2\<lparr> pagination := Some ctrls \<rparr>)"
    using renderPaginationControls_frame [OF c] by blast
  have "renderPagedPosts e p s = renderPaginationControls e ?s2"
    using assms(1,3)
    by (auto simp: renderPagedPosts_def Let_def renderPostsGrid_def CONFIG_def foldl_snoc_map
        pageSlice [OF assms(4)])
  then show ?thesis using r by auto
qed

lemma pageCards_eq:
  assumes "postsGrid s \<noteq> None" "pagination s \<noteq> None \<or> postsSection s" "postsData s \<noteq> []" "1 \<le> p"
  shows "pageCards e p s = map (createPostCard e) (take 8 (drop (nat ((p - 1) * 8)) (postsData s)))"
proof -
  obtain ctrls where "renderPagedPosts e p s =
           Inr (s\<lparr> currentPage := p,
                   postsGrid := Some (map (createPostCard e)
                      (take 8 (drop (nat ((p - 1) * 8)) (postsData s)))),
                   pagination := Some ctrls \<rparr>)"
    using renderPagedPosts_grid [OF assms] by blast
  then show ?thesis by (simp add: pageCards_def)
qed

lemma concat_pages:
  "concat (map (\<lambda>p. take 8 (drop (nat ((p - 1) * 8)) xs)) [1 .. int m]) = take (8 * m) xs"
proof (induction m)
  case 0
  then show ?case by simp
next
  case (Suc m)
  let ?f = "\<lambda>p. take 8 (drop (nat ((p - 1) * 8)) xs)"
  have u: "[1 .. int (Suc m)] = [1 .. int m] @ [int (Suc m)]"
    using upto_rec2 [of 1 "int (Suc m)"] by simp
  have n: "nat ((int (Suc m) - 1) * 8) = 8 * m" by (simp add: nat_mult_distrib)
  have l: "?f (int (Suc m)) = take 8 (drop (8 * m) xs)" by (simp only: n)
  have "concat (map ?f [1 .. int (Suc m)]) = concat (map ?f [1 .. int m]) @ ?f (int (Suc m))"
    by (simp only: u map_append concat_append list.map concat.simps append_Nil2)
  also have "\<dots> = take (8 * m) xs @ take 8 (drop (8 * m) xs)"
    by (simp only: Suc.IH l)
  also have "\<dots> = take (8 * m + 8) xs" by (simp only: take_add)
  finally show ?case by (simp add: add.commute)
qed

lemma map_pageCards:
  assumes "postsGrid s \<noteq> None" "pagination s \<noteq> None \<or> postsSection s" "postsData s \<noteq> []"
  shows "map (\<lambda>p. pageCards e p s) [1 .. t] =
         map (\<lambda>p. map (createPostCard e) (take 8 (drop (nat ((p - 1) * 8)) (postsData s)))) [1 .. t]"
  using pageCards_eq [OF assms] by simp

text \<open>
  C5. On a page with a grid, for posts \<open>xs\<close> of length \<open>N\<close> and a page number \<open>p\<close> in
  \<open>[1, ceil(N/8)]\<close>, \<^verbatim>\<open>renderPagedPosts(p)\<close> returns, sets \<open>currentPage\<close> to \<open>p\<close> and fills the
  grid with the cards of the slice from index \<open>(p-1)*8\<close> of length \<open>min(8, N-(p-1)*8)\<close>;
  the cards of all pages, page after page, are the cards of \<open>xs\<close> in order.
\<close>

theorem renderPagedPosts_pages:
  assumes "postsGrid s \<noteq> None" and "pagination s \<noteq> None \<or> postsSection s"
  shows "(1 \<le> p \<and> p \<le> totalPagesOf e s \<longrightarrow>
            (\<exists>s'. renderPagedPosts e p s = Inr s' \<and> currentPage s' = p \<and>
                  postsData s' = postsData s \<and>
                  postsGrid s' = Some (map (createPostCard e)
                     (arraySlice (postsData s) ((p - 1) * 8) ((p - 1) * 8 + 8))) \<and>
                  arraySlice (postsData s) ((p - 1) * 8) ((p - 1) * 8 + 8) =
                    take (nat (min 8 (int (length (postsData s)) - (p - 1) * 8)))
                      (drop (nat ((p - 1) * 8)) (postsData s))) \<and>
            int (length (pageCards e p s)) = min 8 (int (length (postsData s)) - (p - 1) * 8)) \<and>
         concat (map (\<lambda>p. pageCards e p s) [1 .. totalPagesOf e s]) =
           map (createPostCard e) (postsData s)"
proof -
  let ?xs = "postsData s" and ?t = "totalPagesOf e s"
  have t: "?t = (int (length ?xs) + 7) div 8" by (rule totalPagesOf_div)
  have part1: "(\<exists>s'. renderPagedPosts e p s = Inr s' \<and> currentPage s' = p \<and>
                  postsData s' = ?xs \<and>
                  postsGrid s' = Some (map (createPostCard e)
                     (arraySlice ?xs ((p - 1) * 8) ((p - 1) * 8 + 8))) \<and>
                  arraySlice ?xs ((p - 1) * 8) ((p - 1) * 8 + 8) =
                    take (nat (min 8 (int (length ?xs) - (p - 1) * 8)))
                      (drop (nat ((p - 1) * 8)) ?xs)) \<and>
            int (length (pageCards e p s)) = min 8 (int (length ?xs) - (p - 1) * 8)"
    if p: "1 \<le> p" "p \<le> ?t"
  proof -
    have "p * 8 \<le> int (length ?xs) + 7" using p(2) unfolding t by presburger
    then have lt: "(p - 1) * 8 < int (length ?xs)" by simp
    then have ne: "?xs \<noteq> []" using p by auto
    obtain ctrls where r: "renderPagedPosts e p s =
           Inr (s\<lparr> currentPage := p,
                   postsGrid := Some (map (createPostCard e) (take 8 (drop (nat ((p - 1) * 8)) ?xs))),
                   pagination := Some ctrls \<rparr>)"
      using renderPagedPosts_grid [OF assms ne p(1)] by blast
    have tk: "take 8 (drop (nat ((p - 1) * 8)) ?xs) =
              take (nat (min 8 (int (length ?xs) - (p - 1) * 8))) (drop (nat ((p - 1) * 8)) ?xs)"
      using lt p by (auto simp: min_def)
    have len: "int (length (take 8 (drop (nat ((p - 1) * 8)) ?xs))) =
               min 8 (int (length ?xs) - (p - 1) * 8)"
      using lt p by (auto simp: min_def)
    show ?thesis
      using r tk len by (simp add: pageCards_eq [OF assms ne p(1)] pageSlice [OF p(1)])
  qed
  have part2: "concat (map (\<lambda>p. pageCards e p s) [1 .. ?t]) = map (createPostCard e) ?xs"
  proof (cases "?xs = []")
    case True
    then show ?thesis by (simp add: t)
  next
    case False
    have ge: "0 \<le> ?t" using t by simp
    have "int (length ?xs) \<le> 8 * ?t" unfolding t by presburger
    then have big: "length ?xs \<le> 8 * nat ?t" by linarith
    have "concat (map (\<lambda>p. pageCards e p s) [1 .. ?t]) =
          concat (map (\<lambda>p. map (createPostCard e) (take 8 (drop (nat ((p - 1) * 8)) ?xs))) [1 .. ?t])"
      by (simp only: map_pageCards [OF assms False])
    also have "\<dots> = map (createPostCard e)
          (concat (map (\<lambda>p. take 8 (drop (nat ((p - 1) * 8)) ?xs)) [1 .. int (nat ?t)]))"
      using ge by (simp add: map_concat comp_def)
    also have "\<dots> = map (createPostCard e) ?xs"
      using big by (simp only: concat_pages) simp
    finally show ?thesis .
  qed
  show ?thesis using part1 part2 by blast
qed

theorem renderPagedPosts_pages_witness:
  "length (pageCards exampleEnv 3 (gridState 20 1)) = 4 \<and>
   length (pageCards exampleEnv 1 (gridState 20 1)) = 8 \<and>
   concat (map (\<lambda>p. pageCards exampleEnv p (gridState 20 1)) [1, 2, 3]) =
     replicate 20 (createPostCard exampleEnv samplePost)"
proof -
  have t: "totalPagesOf exampleEnv (gridState 20 1) = 3"
    by (simp add: totalPagesOf_div gridState_sel)
  have g: "postsGrid (gridState 20 1) \<noteq> None"
    "pagination (gridState 20 1) \<noteq> None \<or> postsSection (gridState 20 1)"
    by (simp_all add: gridState_sel)
  show ?thesis
    using renderPagedPosts_pages [OF g, of 3 exampleEnv] renderPagedPosts_pages [OF g, of 1 exampleEnv]
    by (simp add: t gridState_sel upto_rec1)
qed

section \<open>Related posts\<close>

lemma js_inject: "js a = js b \<longleftrightarrow> a = b"
proof -
  have "inj (\<lambda>c. (of_nat (of_char c) :: 16 word))"
  proof (rule injI)
    fix x y :: char
    assume "(of_nat (of_char x) :: 16 word) = of_nat (of_char y)"
    then have "unat (of_nat (of_char x) :: 16 word) = unat (of_nat (of_char y) :: 16 word)" by simp
    moreover have "(of_char x :: nat) < 256" "(of_char y :: nat) < 256" by simp_all
    ultimately have "(of_char x :: nat) = of_char y" by (simp add: unat_of_nat)
    then show "x = y" by simp
  qed
  then show ?thesis unfolding js_def by (simp add: inj_map_eq_map)
qed

text \<open>
  C1 fails on the code. The current post \<^verbatim>\<open>pie\<close> shares its category with exactly two of
  the other four posts, \<^verbatim>\<open>soup\<close> and \<^verbatim>\<open>stew\<close>. The backfill appends all posts but the
  current one, the two chosen ones included, so the third entry is \<^verbatim>\<open>soup\<close> again and
  no post of another category is shown.
\<close>

theorem selectRelated_repeats_post:
  "selectRelated (mkPost ''pie'' ''Recipes'') fivePosts =
     [mkPost ''soup'' ''Recipes'', mkPost ''stew'' ''Recipes'', mkPost ''soup'' ''Recipes'']"
  by (simp add: selectRelated_def fivePosts_def mkPost_def arraySlice_def js_inject)

section \<open>Data loading\<close>

lemma sublist_dataPath: "sublist (dataPath cfg) (loadErrorBlock message cfg)"
  unfolding loadErrorBlock_def sublist_def by (metis append.assoc)

lemma loadFailed_props:
  "fst (loadFailed e m s) = [] \<and> postsData (snd (loadFailed e m s)) = postsData s \<and>
   (\<forall>g. postsGrid s = Some g \<longrightarrow>
      postsGrid (snd (loadFailed e m s)) = Some [loadErrorBlock m (CONFIG (isPostPage e))])"
  by (simp add: loadFailed_def)

text \<open>
  C6. The index loader hands over to the full-dataset loader on a rejected fetch, on
  a status that is not a success and on a payload that cannot be read. The
  full-dataset loader, on such a failure, returns the empty sequence and, when the page
  has the grid, replaces the content of the grid by one block that contains the
  attempted path. Otherwise each loader returns the \<^verbatim>\<open>posts\<close> of its payload, empty when
  the key is absent, and stores it in \<open>postsData\<close>.
\<close>

theorem loaders_fallback:
  "(isFailure (fetch e (indexPath (CONFIG (isPostPage e)))) \<longrightarrow>
      loadPostsIndex e s = loadPostsData e s) \<and>
   (\<not> isFailure (fetch e (indexPath (CONFIG (isPostPage e)))) \<longrightarrow>
      loadPostsIndex e s =
        (payloadPosts (fetch e (indexPath (CONFIG (isPostPage e)))),
         s\<lparr> postsData := payloadPosts (fetch e (indexPath (CONFIG (isPostPage e)))) \<rparr>)) \<and>
   (isFailure (fetch e (dataPath (CONFIG (isPostPage e)))) \<longrightarrow>
      fst (loadPostsData e s) = [] \<and>
      (\<forall>g. postsGrid s = Some g \<longrightarrow>
         (\<exists>block. postsGrid (snd (loadPostsData e s)) = Some [block] \<and>
                  sublist (dataPath (CONFIG (isPostPage e))) block))) \<and>
   (\<not> isFailure (fetch e (dataPath (CONFIG (isPostPage e)))) \<longrightarrow>
      loadPostsData e s =
        (payloadPosts (fetch e (dataPath (CONFIG (isPostPage e)))),
         s\<lparr> postsData := payloadPosts (fetch e (dataPath (CONFIG (isPostPage e)))) \<rparr>))"
proof -
  let ?ip = "indexPath (CONFIG (isPostPage e))" and ?dp = "dataPath (CONFIG (isPostPage e))"
  have a: "isFailure (fetch e ?ip) \<longrightarrow> loadPostsIndex e s = loadPostsData e s"
    by (auto simp: isFailure_def loadPostsIndex_def split: fetch_result.splits json_result.splits)
  have b: "\<not> isFailure (fetch e ?ip) \<longrightarrow>
      loadPostsIndex e s = (payloadPosts (fetch e ?ip), s\<lparr> postsData := payloadPosts (fetch e ?ip) \<rparr>)"
    by (auto simp: isFailure_def loadPostsIndex_def payloadPosts_def Let_def
        split: fetch_result.splits json_result.splits option.splits)
  have c: "isFailure (fetch e ?dp) \<longrightarrow> (\<exists>m. loadPostsData e s = loadFailed e m s)"
    by (auto simp: isFailure_def loadPostsData_def split: fetch_result.splits json_result.splits)
  have c': "isFailure (fetch e ?dp) \<longrightarrow>
      fst (loadPostsData e s) = [] \<and>
      (\<forall>g. postsGrid s = Some g \<longrightarrow>
         (\<exists>block. postsGrid (snd (loadPostsData e s)) = Some [block] \<and> sublist ?dp block))"
  proof
    assume "isFailure (fetch e ?dp)"
    then obtain m where m: "loadPostsData e s = loadFailed e m s" using c by blast
    show "fst (loadPostsData e s) = [] \<and>
      (\<forall>g. postsGrid s = Some g \<longrightarrow>
         (\<exists>block. postsGrid (snd (loadPostsData e s)) = Some [block] \<and> sublist ?dp block))"
      using loadFailed_props [of e m s] sublist_dataPath [of "CONFIG (isPostPage e)" m]
      by (auto simp: m)
  qed
  have d: "\<not> isFailure (fetch e ?dp) \<longrightarrow>
      loadPostsData e s = (payloadPosts (fetch e ?dp), s\<lparr> postsData := payloadPosts (fetch e ?dp) \<rparr>)"
    by (auto simp: isFailure_def loadPostsData_def payloadPosts_def Let_def
        split: fetch_result.splits json_result.splits option.splits)
  show ?thesis using a b c' d by blast
qed

theorem loaders_fallback_witness:
  "fst (loadPostsIndex exampleEnv (gridState 0 1)) = [] \<and>
   postsGrid (snd (loadPostsIndex exampleEnv (gridState 0 1))) =
     Some [loadErrorBlock (js ''Failed to fetch'') (CONFIG False)] \<and>
   loadPostsIndex okEnv (gridState 0 1) =
     ([samplePost], (gridState 0 1) \<lparr> postsData := [samplePost] \<rparr>)"
proof -
  have f: "isFailure (fetch exampleEnv (indexPath (CONFIG (isPostPage exampleEnv))))"
    "isFailure (fetch exampleEnv (dataPath (CONFIG (isPostPage exampleEnv))))"
    by (simp_all add: isFailure_def exampleEnv_def)
  have g: "isFailure (fetch okEnv (indexPath (CONFIG (isPostPage okEnv))))"
    "\<not> isFailure (fetch okEnv (dataPath (CONFIG (isPostPage okEnv))))"
    "payloadPosts (fetch okEnv (dataPath (CONFIG (isPostPage okEnv)))) = [samplePost]"
    by (simp_all add: isFailure_def payloadPosts_def okEnv_def exampleEnv_def CONFIG_def js_inject)
  have d: "loadPostsData exampleEnv (gridState 0 1) =
             loadFailed exampleEnv (js ''Failed to fetch'') (gridState 0 1)"
    by (simp add: loadPostsData_def exampleEnv_def)
  have e: "isPostPage exampleEnv = False" by (simp add: exampleEnv_def)
  show ?thesis
    using loaders_fallback [of exampleEnv "gridState 0 1"] loaders_fallback [of okEnv "gridState 0 1"] f g
    by (simp add: d loadFailed_def gridState_sel e)
qed

section \<open>Order of a single post\<close>












section \<open>Escaping\<close>

lemma markup_append [simp]: "markup (a @ b) = markup a + markup b"
  by (simp add: markup_def)

lemma markup_Nil [simp]: "markup [] = 0"
  by (simp add: markup_def)

lemma markup_escapeChar: "markup (escapeChar c) = 0"
  by (simp add: escapeChar_def markup_def js_def)

lemma markup_concat_escape: "markup (concat (map escapeChar s)) = 0"
  by (induction s) (simp_all add: markup_escapeChar)

lemma markup_escapeHtml [simp]: "markup (escapeHtml s) = 0"
  by (simp add: escapeHtml_def markup_concat_escape)

lemma markup_0_iff: "markup s = 0 \<longleftrightarrow> (\<forall>c \<in> set s. c \<noteq> 0x3C \<and> c \<noteq> 0x3E)"
  by (auto simp: markup_def filter_empty_conv)

lemma markup_substring [simp]: "markup s = 0 \<Longrightarrow> markup (substring s a b) = 0"
  unfolding markup_0_iff substring_def Let_def
  by (meson in_set_dropD in_set_takeD)

lemma escapeHtml_append: "escapeHtml (a @ b) = escapeHtml a @ escapeHtml b"
  by (simp add: escapeHtml_def)



lemma markup_para [simp]: "markup (para p) = markup (js ''<p>'') + markup (js ''</p>'')"
  by (simp add: para_def)

lemma markup_listItem [simp]: "markup (listItem p) = markup (js ''<li>'') + markup (js ''</li>'')"
  by (simp add: listItem_def)



























section \<open>A post without content\<close>

lemma loadPostsData_postContent: "postContent (snd (loadPostsData e s)) = postContent s"
  by (simp add: loadPostsData_def loadFailed_def Let_def
      split: fetch_result.splits json_result.splits)

lemma escapeHtml_prefix:
  "escapeHtml (js ''Error rendering post: '' @ m) = js ''Error rendering post: '' @ escapeHtml m"
proof -
  have "escapeHtml (js ''Error rendering post: '') = js ''Error rendering post: ''"
    by (simp add: escapeHtml_def escapeChar_def js_def)
  then show ?thesis by (simp add: escapeHtml_append)
qed

text \<open>
  C9. On a post page without pre-rendered body, when the slug of the query selects a
  post of the dataset that has no content: \<^verbatim>\<open>renderSinglePost\<close> throws on every page that
  has the post container, and after \<^verbatim>\<open>loadSinglePost\<close> the container holds the error box
  with \<^verbatim>\<open>Error rendering post: \<close> followed by the (encoded) message of the exception.
\<close>

theorem missing_content_shows_error:
  assumes "\<not> hasPostBody e" and "preloadedPost e = None"
    and "slugParam e = Some sl" and "sl \<noteq> []"
    and "find (\<lambda>p. slug p = sl) (fst (loadPostsData e s)) = Some post"
    and "content post = None" and "postContent s = Some old"
  shows "(\<forall>s'. postContent s' \<noteq> None \<longrightarrow> renderSinglePost e post s' = Inl TypeError) \<and>
         postContent (loadSinglePost e s) =
           Some [errorBox (js ''Error rendering post: '' @ errorMessage e TypeError)] \<and>
         sublist (js ''Error rendering post: '' @ escapeHtml (errorMessage e TypeError))
           (errorBox (js ''Error rendering post: '' @ errorMessage e TypeError))"
proof -
  have r: "renderSinglePost e post s' = Inl TypeError" if "postContent s' \<noteq> None" for s'
    using that assms(6) by (auto simp: renderSinglePost_def)
  obtain posts s1 where l: "loadPostsData e s = (posts, s1)" by (cases "loadPostsData e s")
  have pc: "postContent s1 = Some old"
    using loadPostsData_postContent [of e s] l assms(7) by simp
  have f: "find (\<lambda>p. slug p = sl) posts = Some post" using assms(5) l by simp
  have r2: "renderSinglePost e post (s1\<lparr> currentPost := Some post \<rparr>) = Inl TypeError"
    by (rule r) (simp add: pc)
  have "loadSinglePost e s =
          showError (js ''Error rendering post: '' @ errorMessage e TypeError)
            (s1\<lparr> currentPost := Some post \<rparr>)"
    using assms(1-4) by (simp add: loadSinglePost_def l f r2 Let_def)
  then have p: "postContent (loadSinglePost e s) =
           Some [errorBox (js ''Error rendering post: '' @ errorMessage e TypeError)]"
    by (simp add: showError_def pc)
  have "sublist (escapeHtml (js ''Error rendering post: '' @ errorMessage e TypeError))
           (errorBox (js ''Error rendering post: '' @ errorMessage e TypeError))"
    unfolding errorBox_def sublist_def by blast
  then show ?thesis using r p by (simp add: escapeHtml_prefix)
qed

theorem missing_content_shows_error_witness:
  "postContent (loadSinglePost singleEnv postState) =
     Some [errorBox (js ''Error rendering post: Cannot read properties of undefined'')]"
proof -
  have l: "loadPostsData singleEnv postState = ([samplePost], postState\<lparr> postsData := [samplePost] \<rparr>)"
    by (simp add: loadPostsData_def singleEnv_def exampleEnv_def Let_def)
  have a: "\<not> hasPostBody singleEnv" "preloadedPost singleEnv = None"
    "slugParam singleEnv = Some (js ''soup'')" "js ''soup'' \<noteq> []"
    by (simp_all add: singleEnv_def exampleEnv_def js_def)
  have f: "find (\<lambda>p. slug p = js ''soup'') (fst (loadPostsData singleEnv postState)) = Some samplePost"
    by (simp add: l samplePost_def)
  have c: "content samplePost = None" by (simp add: samplePost_def)
  have s: "postContent postState = Some []" by (simp add: postState_def)
  have m: "errorMessage singleEnv TypeError = js ''Cannot read properties of undefined''"
    by (simp add: singleEnv_def exampleEnv_def)
  show ?thesis
    using missing_content_shows_error [OF a f c s] by (simp add: m js_def)
qed

end
